theory Spec2Isabelle
  imports Main
begin

section \<open>Data model of \<^verbatim>\<open>guardrails/utils/pydantic_utils.py\<close>\<close>

text \<open>
  The module compiles a Pydantic model into a tree of lxml elements. Its inputs are
  Python type annotations and Pydantic \<^verbatim>\<open>ModelField\<close> objects, its output is an
  \<^verbatim>\<open>lxml.etree.Element\<close>.

  A validator attached to a field is either a string that is already in its serialised
  form, or a validator object, of which the module reads \<^verbatim>\<open>to_xml_attrib()\<close>,
  \<^verbatim>\<open>rail_alias\<close> and \<^verbatim>\<open>on_fail\<close> (a callable or a falsy value; only the
  callable's \<^verbatim>\<open>__name__\<close> is read).
\<close>

datatype validator =
    PromptStr string
  | Validator (to_xml_attrib: string) (rail_alias: string) (on_fail: "string option")

text \<open>
  Type annotations, seen through the operations the module applies to them:
  \<^verbatim>\<open>get_origin\<close>, \<^verbatim>\<open>get_args\<close>, \<^verbatim>\<open>issubclass(_, BaseModel)\<close> and \<^verbatim>\<open>==\<close>.
  \<^item> \<open>PyList\<close> and \<open>PyDict\<close> are the builtin classes \<^verbatim>\<open>list\<close> and \<^verbatim>\<open>dict\<close>;
  \<^item> \<open>ListOf args\<close> is an annotation whose origin is \<^verbatim>\<open>list\<close> (\<^verbatim>\<open>List[int]\<close>,
    \<^verbatim>\<open>list[int]\<close>, and the bare alias \<^verbatim>\<open>typing.List\<close>, whose arguments are empty),
    \<open>DictOf args\<close> likewise for \<^verbatim>\<open>dict\<close>;
  \<^item> \<open>TUnion args\<close> is \<^verbatim>\<open>typing.Union[...]\<close> (\<^verbatim>\<open>Optional[X]\<close> is
    \<^verbatim>\<open>Union[X, None]\<close>);
  \<^item> \<open>UnionType args\<close> is a union written \<^verbatim>\<open>X | Y\<close> (PEP 604): its origin
    is \<^verbatim>\<open>types.UnionType\<close>, which is not \<^verbatim>\<open>typing.Union\<close>, and it is not a
    class, so \<^verbatim>\<open>issubclass\<close> raises \<^verbatim>\<open>TypeError\<close> on it;
  \<^item> \<open>BaseModel fields\<close> is a subclass of \<^verbatim>\<open>pydantic.BaseModel\<close> with its
    \<^verbatim>\<open>__fields__\<close>, an ordered dictionary from field name to \<^verbatim>\<open>ModelField\<close>;
  \<^item> \<open>OtherType name args\<close> is any other annotation (\<^verbatim>\<open>bytes\<close>, \<^verbatim>\<open>Tuple[int, str]\<close>,
    a subclass of \<^verbatim>\<open>str\<close>, ...): its origin is none of \<^verbatim>\<open>list\<close>, \<^verbatim>\<open>dict\<close>,
    \<^verbatim>\<open>Union\<close>, \<^verbatim>\<open>types.UnionType\<close>, and it is equal to none of the types the
    module compares with.
  A \<^verbatim>\<open>ModelField\<close> carries the annotation and the three attributes of its
  \<^verbatim>\<open>field_info\<close> that the module reads; an attribute that is missing and one that is
  \<^verbatim>\<open>None\<close> are both \<open>None\<close> here, as the module treats them alike.

  The values of these types are finite trees: a model class that refers to itself is not
  a value of \<open>ty\<close>.
\<close>

datatype ty =
    NoneType
  | TBool
  | TDate
  | TFloat
  | TInt
  | TStr
  | TTime
  | HttpUrl
  | PyList
  | PyDict
  | ListOf "ty list"
  | DictOf "ty list"
  | TUnion "ty list"
  | UnionType "ty list"
  | BaseModel "(string \<times> model_field) list"
  | OtherType string "ty list"
and model_field =
    ModelField (annotation: ty) (gd_validators: "validator list option")
      (description: "string option") (field_when: "string option")

text \<open>
  Several functions take \<^verbatim>\<open>Union[ModelField, Type]\<close> and test
  \<^verbatim>\<open>isinstance(_, ModelField)\<close>.
\<close>

datatype any = Field model_field | Type ty

text \<open>
  The exceptions the module raises. \<open>ValueError t\<close> is
  \<^verbatim>\<open>ValueError(f"Unsupported type: {t}")\<close>: it carries the type its message prints.
  \<open>IndexError\<close> is what indexing an empty tuple raises.
\<close>

datatype error =
    AssertionError string
  | ValueError ty
  | IndexError string

text \<open>
  An lxml element: tag, attributes in document order, children in document order.
  \<^verbatim>\<open>Element.set\<close> replaces the value of an attribute that exists, in place, and adds
  a new attribute at the end; \<^verbatim>\<open>Element.append\<close> adds a last child. Strings are
  taken to be valid XML names and values.
\<close>

datatype element =
  Element (tag: string) (attrib: "(string \<times> string) list") (children: "element list")

definition E :: "string \<Rightarrow> element" where
  "E t = Element t [] []"

fun assign :: "'k \<Rightarrow> 'v \<Rightarrow> ('k \<times> 'v) list \<Rightarrow> ('k \<times> 'v) list" where
  "assign k v [] = [(k, v)]"
| "assign k v ((k', v') # kvs) =
     (if k' = k then (k, v) # kvs else (k', v') # assign k v kvs)"

definition set_attr :: "string \<Rightarrow> string \<Rightarrow> element \<Rightarrow> element" where
  "set_attr k v e = Element (tag e) (assign k v (attrib e)) (children e)"

definition append_el :: "element \<Rightarrow> element \<Rightarrow> element" where
  "append_el e c = Element (tag e) (attrib e) (children e @ [c])"

section \<open>Helpers of the typing module\<close>

text \<open>
  The origins the module can tell apart: \<^verbatim>\<open>list\<close>, \<^verbatim>\<open>dict\<close>,
  \<^verbatim>\<open>typing.Union\<close> and \<^verbatim>\<open>types.UnionType\<close>.
\<close>

datatype origin = OriginList | OriginDict | OriginUnion | OriginUnionType

fun get_origin :: "ty \<Rightarrow> origin option" where
  "get_origin (ListOf _) = Some OriginList"
| "get_origin (DictOf _) = Some OriginDict"
| "get_origin (TUnion _) = Some OriginUnion"
| "get_origin (UnionType _) = Some OriginUnionType"
| "get_origin _ = None"

fun get_args :: "ty \<Rightarrow> ty list" where
  "get_args (ListOf args) = args"
| "get_args (DictOf args) = args"
| "get_args (TUnion args) = args"
| "get_args (UnionType args) = args"
| "get_args (OtherType _ args) = args"
| "get_args _ = []"

section \<open>The type normaliser and the classifier\<close>

fun is_pydantic_base_model :: "ty \<Rightarrow> bool" where
  "is_pydantic_base_model (BaseModel _) = True"
| "is_pydantic_base_model _ = False"

text \<open>
  \<^verbatim>\<open>prepare_type_annotation\<close>: unwrap a \<^verbatim>\<open>ModelField\<close>, then strip a union to its one
  member that is not \<^verbatim>\<open>NoneType\<close>; the \<^verbatim>\<open>assert\<close> fails for any other number of
  such members.
\<close>

definition unwrap_field :: "any \<Rightarrow> ty" where
  "unwrap_field type_annotation =
     (case type_annotation of Field f \<Rightarrow> annotation f | Type t \<Rightarrow> t)"

definition prepare_type_annotation :: "any \<Rightarrow> error + ty" where
  "prepare_type_annotation type_annotation =
     (let t = unwrap_field type_annotation in
      if get_origin t = Some OriginUnion then
        (let ts = filter (\<lambda>m. m \<noteq> NoneType) (get_args t) in
         if length ts = 1 then Inr (hd ts)
         else Inl (AssertionError ''Union type must have exactly one non-None type''))
      else Inr t)"

definition is_list :: "any \<Rightarrow> error + bool" where
  "is_list type_annotation =
     (case prepare_type_annotation type_annotation of
        Inl err \<Rightarrow> Inl err
      | Inr t \<Rightarrow>
          Inr (if is_pydantic_base_model t then False
               else if get_origin t = Some OriginList then True
               else if t = PyList then True
               else False))"

definition is_dict :: "any \<Rightarrow> error + bool" where
  "is_dict type_annotation =
     (case prepare_type_annotation type_annotation of
        Inl err \<Rightarrow> Inl err
      | Inr t \<Rightarrow>
          Inr (if is_pydantic_base_model t then True
               else if get_origin t = Some OriginDict then True
               else if t = PyDict then True
               else False))"

definition type_annotation_to_string :: "any \<Rightarrow> error + string" where
  "type_annotation_to_string type_annotation =
     (case prepare_type_annotation type_annotation of
        Inl err \<Rightarrow> Inl err
      | Inr t \<Rightarrow>
         (case is_list (Type t) of
            Inl err \<Rightarrow> Inl err
          | Inr True \<Rightarrow> Inr ''list''
          | Inr False \<Rightarrow>
             (case is_dict (Type t) of
                Inl err \<Rightarrow> Inl err
              | Inr True \<Rightarrow> Inr ''object''
              | Inr False \<Rightarrow>
                  if t = TBool then Inr ''bool''
                  else if t = TDate then Inr ''date''
                  else if t = TFloat then Inr ''float''
                  else if t = TInt then Inr ''integer''
                  else if t = TStr then Inr ''string''
                  else if t = TTime then Inr ''time''
                  else if t = HttpUrl then Inr ''url''
                  else Inl (ValueError t))))"

section \<open>The validator encoder\<close>

fun join :: "string \<Rightarrow> string list \<Rightarrow> string" where
  "join sep [] = []"
| "join sep [x] = x"
| "join sep (x # y # ys) = x @ sep @ join sep (y # ys)"

text \<open>
  One round of the loop over \<^verbatim>\<open>gd_validators\<close>; the state is
  \<^verbatim>\<open>(format_prompt, on_fails)\<close>, the second a dictionary in insertion order.
\<close>

fun validator_step ::
  "validator \<Rightarrow> string list \<times> (string \<times> string) list \<Rightarrow> string list \<times> (string \<times> string) list"
where
  "validator_step (PromptStr s) (format_prompt, on_fails) = (format_prompt @ [s], on_fails)"
| "validator_step (Validator prompt alias act) (format_prompt, on_fails) =
     (format_prompt @ [prompt],
      assign alias (case act of Some n \<Rightarrow> n | None \<Rightarrow> ''noop'') on_fails)"

definition add_validators_to_xml_element :: "any \<Rightarrow> element \<Rightarrow> element" where
  "add_validators_to_xml_element field_info element =
     (case field_info of
        Type _ \<Rightarrow> element
      | Field f \<Rightarrow>
         (case gd_validators f of
            None \<Rightarrow> element
          | Some vs \<Rightarrow>
             (case fold validator_step vs ([], []) of (format_prompt, on_fails) \<Rightarrow>
                if length format_prompt > 0 then
                  fold (\<lambda>(alias, act) el. set_attr (''on-fail-'' @ alias) act el) on_fails
                    (set_attr ''format'' (join ''; '' format_prompt) element)
                else element)))"

section \<open>The tree builder\<close>

text \<open>
  A \<^verbatim>\<open>for\<close> loop whose body updates one variable and may raise: the first exception
  ends the loop.
\<close>

fun for_each :: "('s \<Rightarrow> 'a \<Rightarrow> error + 's) \<Rightarrow> 'a list \<Rightarrow> 's \<Rightarrow> error + 's" where
  "for_each body [] s = Inr s"
| "for_each body (x # xs) s =
     (case body s x of Inl err \<Rightarrow> Inl err | Inr s' \<Rightarrow> for_each body xs s')"

lemma for_each_cong [fundef_cong]:
  "xs = ys \<Longrightarrow> s = s' \<Longrightarrow> (\<And>a x. x \<in> set ys \<Longrightarrow> f a x = g a x)
   \<Longrightarrow> for_each f xs s = for_each g ys s'"
  by (induction ys arbitrary: xs s s') (auto split: sum.splits)

text \<open>
  \<^verbatim>\<open>choice_elements[key].append(item)\<close> on a \<^verbatim>\<open>defaultdict(list)\<close>, which
  keeps its keys in insertion order.
\<close>

fun setdefault_append :: "'k \<Rightarrow> 'v \<Rightarrow> ('k \<times> 'v list) list \<Rightarrow> ('k \<times> 'v list) list" where
  "setdefault_append k v [] = [(k, [v])]"
| "setdefault_append k v ((k', vs) # rest) =
     (if k' = k then (k', vs @ [v]) # rest else (k', vs) # setdefault_append k v rest)"

text \<open>
  The first loop of \<^verbatim>\<open>create_xml_element_for_base_model\<close>: a field whose
  \<^verbatim>\<open>field_info.when\<close> is set and truthy joins the group of that key, and its name
  joins \<^verbatim>\<open>case_elements\<close>.
\<close>

fun choice_step ::
  "string \<times> model_field \<Rightarrow> (string \<times> (string \<times> model_field) list) list \<times> string set
     \<Rightarrow> (string \<times> (string \<times> model_field) list) list \<times> string set"
where
  "choice_step (field_name, field) (choice_elements, case_elements) =
     (case field_when field of
        None \<Rightarrow> (choice_elements, case_elements)
      | Some w \<Rightarrow>
          if w \<noteq> [] then
            (setdefault_append w (field_name, field) choice_elements,
             insert field_name case_elements)
          else (choice_elements, case_elements))"

definition collect_choices ::
  "(string \<times> model_field) list \<Rightarrow> (string \<times> (string \<times> model_field) list) list \<times> string set"
where
  "collect_choices fields = fold choice_step fields ([], {})"

text \<open>
  The first half of \<^verbatim>\<open>create_xml_element_for_field\<close>, before the children are
  built: the element with its \<^verbatim>\<open>name\<close>, validator and \<^verbatim>\<open>description\<close>
  attributes.
\<close>

definition new_field_element :: "any \<Rightarrow> string \<Rightarrow> string option \<Rightarrow> element" where
  "new_field_element field field_type field_name =
     (let element = E field_type;
          element = (case field_name of
                       None \<Rightarrow> element
                     | Some n \<Rightarrow> if n \<noteq> [] then set_attr ''name'' n element else element);
          element = add_validators_to_xml_element field element
      in case field of
           Type _ \<Rightarrow> element
         | Field f \<Rightarrow>
            (case description f of
               None \<Rightarrow> element
             | Some d \<Rightarrow> set_attr ''description'' d element))"

text \<open>\<^verbatim>\<open>model.__fields__.items()\<close>; only read where the type is a model.\<close>

fun model_fields :: "ty \<Rightarrow> (string \<times> model_field) list" where
  "model_fields (BaseModel fields) = fields"
| "model_fields _ = []"

text \<open>
  The two builders call each other along the structure of the annotation, so they
  terminate; \<open>weight\<close> is the measure.
\<close>

fun weight :: "any \<Rightarrow> nat" where
  "weight (Field f) = size f"
| "weight (Type t) = size t"

lemma size_member: "m \<in> set ts \<Longrightarrow> size m < Suc (size_list size ts)"
  by (induction ts) auto

lemma prepare_size:
  assumes "prepare_type_annotation a = Inr t"
  shows "size t \<le> weight a"
proof -
  define u where "u = unwrap_field a"
  have u: "size u \<le> weight a"
  proof (cases a)
    case (Field f)
    then show ?thesis by (cases f) (simp add: u_def unwrap_field_def)
  next
    case (Type t)
    then show ?thesis by (simp add: u_def unwrap_field_def)
  qed
  show ?thesis
  proof (cases "get_origin u = Some OriginUnion")
    case False
    with assms u show ?thesis
      by (auto simp: prepare_type_annotation_def u_def Let_def)
  next
    case True
    then obtain ts where ts: "u = TUnion ts" by (cases u) auto
    from assms True have "length (filter (\<lambda>m. m \<noteq> NoneType) (get_args u)) = 1"
      and t: "t = hd (filter (\<lambda>m. m \<noteq> NoneType) (get_args u))"
      by (auto simp: prepare_type_annotation_def u_def Let_def split: if_splits)
    then have "t \<in> set (filter (\<lambda>m. m \<noteq> NoneType) ts)"
      using ts by (cases "filter (\<lambda>m. m \<noteq> NoneType) ts") auto
    then have "t \<in> set ts" by simp
    then have "size t < size u" using ts by (simp add: size_member)
    with u show ?thesis by simp
  qed
qed

lemma size_args: "m \<in> set (get_args t) \<Longrightarrow> size m < size t"
  by (cases t) (auto simp: size_member)

lemma size_model_fields:
  "is_pydantic_base_model t \<Longrightarrow> size_list (size_prod (\<lambda>_. 0) size) (model_fields t) < size t"
  by (cases t) auto

lemma size_field_member:
  "(n, f) \<in> set fields \<Longrightarrow> size f < size_list (size_prod (\<lambda>_. 0) size) fields"
  by (induction fields) auto

lemma setdefault_append_members:
  "set (concat (map snd (setdefault_append w x groups))) = insert x (set (concat (map snd groups)))"
proof (induction groups)
  case Nil
  show ?case by simp
next
  case (Cons g groups)
  obtain k vs where g: "g = (k, vs)" by (cases g)
  show ?case
  proof (cases "k = w")
    case True
    then show ?thesis using g by auto
  next
    case False
    then show ?thesis using g Cons.IH by auto
  qed
qed

lemma fold_choice_step_members:
  "set (concat (map snd (fst (fold choice_step fields acc))))
     \<subseteq> set fields \<union> set (concat (map snd (fst acc)))"
proof (induction fields arbitrary: acc)
  case Nil
  then show ?case by simp
next
  case (Cons x xs)
  obtain n f where x: "x = (n, f)" by (cases x)
  obtain ce cs where acc: "acc = (ce, cs)" by (cases acc)
  have "set (concat (map snd (fst (choice_step x acc)))) \<subseteq> insert x (set (concat (map snd (fst acc))))"
  proof (cases "field_when f")
    case None
    then show ?thesis using x acc by auto
  next
    case (Some w)
    then show ?thesis
      using x acc setdefault_append_members [of w x ce] by (cases "w = []") auto
  qed
  with Cons.IH [of "choice_step x acc"] show ?case by auto
qed

lemma collect_choices_members:
  assumes "collect_choices fields = (choice_elements, case_elements)"
    and "(k, grp) \<in> set choice_elements" and "y \<in> set grp"
  shows "y \<in> set fields"
proof -
  have "y \<in> set (concat (map snd choice_elements))"
    using assms(2,3) by force
  then show ?thesis
    using fold_choice_step_members [of fields "([], {})"] assms(1)
    by (auto simp: collect_choices_def)
qed

lemma size_first_arg:
  assumes "prepare_type_annotation field = Inr t" and "get_args t = x # xs"
  shows "size x < weight field"
    and "is_pydantic_base_model x
         \<Longrightarrow> size_list (size_prod (\<lambda>_. 0) size) (model_fields x) < weight field"
proof -
  have "size x < size t" using assms(2) by (simp add: size_args)
  moreover have "size t \<le> weight field" using assms(1) by (rule prepare_size)
  ultimately show "size x < weight field" by simp
  then show "is_pydantic_base_model x
         \<Longrightarrow> size_list (size_prod (\<lambda>_. 0) size) (model_fields x) < weight field"
    using size_model_fields [of x] by simp
qed

lemma size_second_arg:
  assumes "prepare_type_annotation field = Inr t" and "get_args t = [k, v]"
  shows "size v < weight field"
proof -
  have "size v < size t" using assms(2) by (simp add: size_args)
  moreover have "size t \<le> weight field" using assms(1) by (rule prepare_size)
  ultimately show ?thesis by simp
qed

lemma size_prepared_model:
  assumes "prepare_type_annotation field = Inr t" and "is_pydantic_base_model t"
  shows "size_list (size_prod (\<lambda>_. 0) size) (model_fields t) < weight field"
  using prepare_size [OF assms(1)] size_model_fields [OF assms(2)] by simp

lemma size_group_member:
  assumes "(choice_elements, case_elements) = collect_choices fields"
    and "(k, grp) \<in> set choice_elements" and "(n, f) \<in> set grp"
  shows "size f < size_list (size_prod (\<lambda>_. 0) size) fields"
  using collect_choices_members [OF assms(1) [symmetric] assms(2,3)]
  by (rule size_field_member)

text \<open>
  \<^verbatim>\<open>create_xml_element_for_field\<close> and \<^verbatim>\<open>create_xml_element_for_base_model\<close>.
  In the list branch the source reads \<^verbatim>\<open>inner_type[0]\<close> after an
  \<^verbatim>\<open>if len(inner_type) == 0: pass\<close>, so an empty argument tuple raises
  \<^verbatim>\<open>IndexError\<close>. The model is given as its fields; the accumulator is optional.
\<close>

function create_xml_element_for_field :: "any \<Rightarrow> string option \<Rightarrow> error + element"
  and create_xml_element_for_base_model ::
    "(string \<times> model_field) list \<Rightarrow> element option \<Rightarrow> error + element"
where
  "create_xml_element_for_field field field_name =
     (case type_annotation_to_string field of
        Inl err \<Rightarrow> Inl err
      | Inr field_type \<Rightarrow>
         (let element = new_field_element field field_type field_name in
          if field_type = ''list'' \<or> field_type = ''object'' then
            (case prepare_type_annotation field of
               Inl err \<Rightarrow> Inl err
             | Inr type_annotation \<Rightarrow>
                (case is_list (Type type_annotation) of
                   Inl err \<Rightarrow> Inl err
                 | Inr True \<Rightarrow>
                    (case get_args type_annotation of
                       [] \<Rightarrow> Inl (IndexError ''tuple index out of range'')
                     | inner_type # _ \<Rightarrow>
                        if is_pydantic_base_model inner_type then
                          (case create_xml_element_for_base_model (model_fields inner_type) None of
                             Inl err \<Rightarrow> Inl err
                           | Inr object_element \<Rightarrow> Inr (append_el element object_element))
                        else
                          (case create_xml_element_for_field (Type inner_type) None of
                             Inl err \<Rightarrow> Inl err
                           | Inr inner_element \<Rightarrow> Inr (append_el element inner_element)))
                 | Inr False \<Rightarrow>
                    (case is_dict (Type type_annotation) of
                       Inl err \<Rightarrow> Inl err
                     | Inr True \<Rightarrow>
                        (if is_pydantic_base_model type_annotation then
                          create_xml_element_for_base_model (model_fields type_annotation)
                            (Some element)
                        else
                            (case get_args type_annotation of
                               [key_type, val_type] \<Rightarrow>
                                 if key_type = TStr then
                                   (case create_xml_element_for_field (Type val_type) None of
                                      Inl err \<Rightarrow> Inl err
                                    | Inr inner_element \<Rightarrow> Inr (append_el element inner_element))
                                 else Inl (AssertionError
                                        ''Only string keys are supported for dicts'')
                             | _ \<Rightarrow> Inr element))
                     | Inr False \<Rightarrow> Inl (ValueError type_annotation))))
          else Inr element))"
| "create_xml_element_for_base_model fields element_opt =
     (let element = (case element_opt of None \<Rightarrow> E ''object'' | Some e \<Rightarrow> e) in
      case collect_choices fields of (choice_elements, case_elements) \<Rightarrow>
       (case for_each
               (\<lambda>element (field_name, field).
                  if field_name \<in> set (map fst choice_elements) \<or> field_name \<in> case_elements
                  then Inr element
                  else (case create_xml_element_for_field (Field field) (Some field_name) of
                          Inl err \<Rightarrow> Inl err
                        | Inr field_element \<Rightarrow> Inr (append_el element field_element)))
               fields element of
          Inl err \<Rightarrow> Inl err
        | Inr element \<Rightarrow>
            for_each
              (\<lambda>element (when_key, discriminator_fields).
                 case for_each
                        (\<lambda>choice_element (field_name, field).
                           case create_xml_element_for_field (Field field) (Some field_name) of
                             Inl err \<Rightarrow> Inl err
                           | Inr field_element \<Rightarrow>
                               Inr (append_el choice_element
                                     (append_el (Element ''case'' [(''name'', field_name)] [])
                                        field_element)))
                        discriminator_fields
                        (set_attr ''on-fail-choice'' ''exception''
                           (Element ''choice'' [(''name'', when_key)] [])) of
                   Inl err \<Rightarrow> Inl err
                 | Inr choice_element \<Rightarrow> Inr (append_el element choice_element))
              choice_elements element))"
  by pat_completeness auto



termination create_xml_element_for_field
  apply (relation "measure (\<lambda>x. case x of Inl (a, _) \<Rightarrow> weight a
                                  | Inr (fs, _) \<Rightarrow> size_list (size_prod (\<lambda>_. 0) size) fs)")
        apply simp_all
  subgoal by (rule size_first_arg(2))
  subgoal by (rule size_first_arg(1))
  subgoal by (rule size_prepared_model)
  subgoal by (rule size_second_arg)
  subgoal by (auto intro: size_field_member)
  subgoal by (auto intro: size_group_member)
  done

declare create_xml_element_for_field.simps [simp del]
declare create_xml_element_for_base_model.simps [simp del]

section \<open>Notions used to state the properties\<close>

text \<open>
  \<^verbatim>\<open>typing.Union\<close> flattens its arguments: \<^verbatim>\<open>Union[Union[int, str], None]\<close> is
  \<^verbatim>\<open>Union[int, str, None]\<close>. So no argument of a union that Python can build is a
  union itself, while the datatype \<open>ty\<close> has such values. \<open>union_is_flat\<close> holds of
  the annotations Python can build.
\<close>

fun union_is_flat :: "ty \<Rightarrow> bool" where
  "union_is_flat (TUnion ts) = list_all (\<lambda>m. get_origin m \<noteq> Some OriginUnion) ts"
| "union_is_flat _ = True"

text \<open>
  The shapes the classifier knows: lists, dictionaries and models, and the seven scalar
  types.
\<close>

fun known_shape :: "ty \<Rightarrow> bool" where
  "known_shape PyList = True"
| "known_shape (ListOf _) = True"
| "known_shape PyDict = True"
| "known_shape (DictOf _) = True"
| "known_shape (BaseModel _) = True"
| "known_shape TBool = True"
| "known_shape TDate = True"
| "known_shape TFloat = True"
| "known_shape TInt = True"
| "known_shape TStr = True"
| "known_shape TTime = True"
| "known_shape HttpUrl = True"
| "known_shape _ = False"

text \<open>
  A field is discriminated when \<^verbatim>\<open>field.field_info.when\<close> is set and truthy.
\<close>

definition has_when :: "model_field \<Rightarrow> bool" where
  "has_when field = (case field_when field of None \<Rightarrow> False | Some w \<Rightarrow> w \<noteq> [])"

text \<open>
  The results of \<open>f\<close> on a list, in order, or the first error.
\<close>

fun collect_results :: "('a \<Rightarrow> error + 'b) \<Rightarrow> 'a list \<Rightarrow> error + 'b list" where
  "collect_results f [] = Inr []"
| "collect_results f (x # xs) =
     (case f x of
        Inl err \<Rightarrow> Inl err
      | Inr y \<Rightarrow> (case collect_results f xs of Inl err \<Rightarrow> Inl err | Inr ys \<Rightarrow> Inr (y # ys)))"

section \<open>Auxiliary facts\<close>

lemma prepare_not_union:
  assumes "get_origin t \<noteq> Some OriginUnion"
  shows "prepare_type_annotation (Type t) = Inr t"
  using assms by (simp add: prepare_type_annotation_def unwrap_field_def)

lemma prepare_result_not_union:
  assumes "union_is_flat (unwrap_field a)" and "prepare_type_annotation a = Inr t"
  shows "get_origin t \<noteq> Some OriginUnion"
proof (cases "get_origin (unwrap_field a) = Some OriginUnion")
  case False
  with assms(2) show ?thesis
    by (simp add: prepare_type_annotation_def)
next
  case True
  then obtain ts where ts: "unwrap_field a = TUnion ts"
    by (cases "unwrap_field a") auto
  let ?ms = "filter (\<lambda>m. m \<noteq> NoneType) ts"
  from assms(2) ts have "length ?ms = 1" and "t = hd ?ms"
    by (auto simp: prepare_type_annotation_def Let_def split: if_splits)
  then have "t \<in> set ?ms" by (cases ?ms) auto
  then have "t \<in> set ts" by simp
  with assms(1) ts show ?thesis by (simp add: list_all_iff)
qed

lemma set_attr_frame [simp]:
  "tag (set_attr k v e) = tag e" "children (set_attr k v e) = children e"
  by (simp_all add: set_attr_def)

lemma fold_set_attr_frame:
  "tag (fold (\<lambda>(alias, act) el. set_attr (g alias) act el) xs e) = tag e
   \<and> children (fold (\<lambda>(alias, act) el. set_attr (g alias) act el) xs e) = children e"
  by (induction xs arbitrary: e) (auto split: prod.splits)

lemma add_validators_frame [simp]:
  "tag (add_validators_to_xml_element field e) = tag e"
  "children (add_validators_to_xml_element field e) = children e"
  by (auto simp: add_validators_to_xml_element_def fold_set_attr_frame
      split: any.splits option.splits prod.splits)

lemma new_field_element_frame [simp]:
  "tag (new_field_element field field_type field_name) = field_type"
  "children (new_field_element field field_type field_name) = []"
  by (auto simp: new_field_element_def E_def Let_def split: any.splits option.splits)

lemma classify_dict:
  assumes "prepare_type_annotation field = Inr (DictOf args)"
  shows "type_annotation_to_string field = Inr ''object''"
    and "is_list (Type (DictOf args)) = Inr False"
    and "is_dict (Type (DictOf args)) = Inr True"
  using assms
  by (simp_all add: type_annotation_to_string_def is_list_def is_dict_def prepare_not_union)

lemma classify_list:
  assumes "prepare_type_annotation field = Inr t" and "t = PyList \<or> t = ListOf args"
  shows "type_annotation_to_string field = Inr ''list''"
    and "is_list (Type t) = Inr True"
  using assms
  by (auto simp: type_annotation_to_string_def is_list_def is_dict_def prepare_not_union)

lemma classify_model:
  assumes "prepare_type_annotation field = Inr (BaseModel fields)"
  shows "type_annotation_to_string field = Inr ''object''"
    and "is_list (Type (BaseModel fields)) = Inr False"
    and "is_dict (Type (BaseModel fields)) = Inr True"
  using assms
  by (simp_all add: type_annotation_to_string_def is_list_def is_dict_def prepare_not_union)

lemma bare_list_raises:
  assumes "prepare_type_annotation field = Inr t" and "t = PyList \<or> t = ListOf []"
  shows "create_xml_element_for_field field field_name =
           Inl (IndexError ''tuple index out of range'')"
proof -
  have "t = PyList \<or> t = ListOf []" by fact
  then have args: "get_args t = []" by auto
  show ?thesis
    by (subst create_xml_element_for_field.simps)
      (simp add: classify_list [OF assms] assms(1) args)
qed

lemma for_each_append:
  "for_each body (xs @ ys) s =
     (case for_each body xs s of Inl err \<Rightarrow> Inl err | Inr s' \<Rightarrow> for_each body ys s')"
  by (induction xs arbitrary: s) (auto split: sum.splits)

lemma for_each_invariant:
  assumes "for_each body xs s = Inr s'" and "I s"
    and "\<And>s x s'. I s \<Longrightarrow> body s x = Inr s' \<Longrightarrow> I s'"
  shows "I s'"
  using assms(1,2)
proof (induction xs arbitrary: s)
  case Nil
  then show ?case by simp
next
  case (Cons x xs)
  then show ?case by (auto split: sum.splits intro: assms(3))
qed

lemma append_el_frame [simp]:
  "tag (append_el e c) = tag e" "attrib (append_el e c) = attrib e"
  by (simp_all add: append_el_def)

lemma base_model_frame:
  assumes "create_xml_element_for_base_model fields (Some element) = Inr e"
  shows "tag e = tag element \<and> attrib e = attrib element"
proof -
  let ?I = "\<lambda>el. tag el = tag element \<and> attrib el = attrib element"
  obtain choice_elements case_elements
    where cc: "collect_choices fields = (choice_elements, case_elements)"
    by (cases "collect_choices fields")
  from assms obtain mid where
    direct: "for_each
               (\<lambda>element (field_name, field).
                  if field_name \<in> set (map fst choice_elements) \<or> field_name \<in> case_elements
                  then Inr element
                  else (case create_xml_element_for_field (Field field) (Some field_name) of
                          Inl err \<Rightarrow> Inl err
                        | Inr field_element \<Rightarrow> Inr (append_el element field_element)))
               fields element = Inr mid"
    and choices: "for_each
              (\<lambda>element (when_key, discriminator_fields).
                 case for_each
                        (\<lambda>choice_element (field_name, field).
                           case create_xml_element_for_field (Field field) (Some field_name) of
                             Inl err \<Rightarrow> Inl err
                           | Inr field_element \<Rightarrow>
                               Inr (append_el choice_element
                                     (append_el (Element ''case'' [(''name'', field_name)] [])
                                        field_element)))
                        discriminator_fields
                        (set_attr ''on-fail-choice'' ''exception''
                           (Element ''choice'' [(''name'', when_key)] [])) of
                   Inl err \<Rightarrow> Inl err
                 | Inr choice_element \<Rightarrow> Inr (append_el element choice_element))
              choice_elements mid = Inr e"
    by (subst (asm) create_xml_element_for_base_model.simps)
      (auto simp: cc split: sum.splits)
  have mid: "?I mid"
    by (rule for_each_invariant [OF direct, where I = ?I])
      (auto split: if_splits sum.splits)
  show "?I e"
    by (rule for_each_invariant [OF choices, where I = ?I])
      (auto simp: mid split: if_splits sum.splits)
qed

lemma choice_step_no_when:
  "\<not> has_when f \<Longrightarrow> choice_step (n, f) acc = acc"
  by (cases acc) (auto simp: has_when_def split: option.splits)

lemma fold_choice_step_no_when:
  "list_all (\<lambda>(n, f). \<not> has_when f) fields \<Longrightarrow> fold choice_step fields acc = acc"
proof (induction fields arbitrary: acc)
  case Nil
  show ?case by simp
next
  case (Cons p fields)
  obtain n f where p: "p = (n, f)" by (cases p)
  from Cons.prems have "\<not> has_when f" and "list_all (\<lambda>(n, f). \<not> has_when f) fields"
    by (simp_all add: p)
  then show ?case
    using Cons.IH [of acc] by (simp add: p choice_step_no_when del: choice_step.simps)
qed

lemma direct_pass:
  "for_each
     (\<lambda>el (n, fld).
        if skip n then Inr el
        else (case f fld n of Inl err \<Rightarrow> Inl err | Inr c \<Rightarrow> Inr (append_el el c)))
     fields el =
   (case collect_results (\<lambda>(n, fld). f fld n) (filter (\<lambda>(n, fld). \<not> skip n) fields) of
      Inl err \<Rightarrow> Inl err
    | Inr cs \<Rightarrow> Inr (Element (tag el) (attrib el) (children el @ cs)))"
proof (induction fields arbitrary: el)
  case Nil
  show ?case by simp
next
  case (Cons p fields)
  obtain n fld where p: "p = (n, fld)" by (cases p)
  show ?case
    by (cases "skip n"; cases "f fld n")
       (simp_all add: p Cons.IH append_el_def split: sum.splits)
qed

lemma keys_setdefault_append:
  "fst ` set (setdefault_append k v groups) = insert k (fst ` set groups)"
proof (induction groups)
  case Nil
  show ?case by simp
next
  case (Cons g groups)
  obtain k' vs where g: "g = (k', vs)" by (cases g)
  show ?case using Cons.IH by (cases "k' = k") (auto simp: g)
qed

lemma keys_choice_step:
  assumes "field_when g = Some k" and "k \<noteq> []"
  shows "fst ` set (fst (choice_step (m, g) acc)) = insert k (fst ` set (fst acc))"
  using assms by (cases acc) (simp add: keys_setdefault_append)

lemma keys_choice_step_mono:
  "fst ` set (fst acc) \<subseteq> fst ` set (fst (choice_step p acc))"
proof -
  obtain m g where p: "p = (m, g)" by (cases p)
  obtain ce cs where acc: "acc = (ce, cs)" by (cases acc)
  show ?thesis
    by (cases "field_when g") (auto simp: p acc keys_setdefault_append)
qed

lemma keys_fold_mono:
  "fst ` set (fst acc) \<subseteq> fst ` set (fst (fold choice_step fields acc))"
proof (induction fields arbitrary: acc)
  case Nil
  show ?case by simp
next
  case (Cons p fields)
  have "fst ` set (fst acc) \<subseteq> fst ` set (fst (choice_step p acc))"
    by (rule keys_choice_step_mono)
  also have "\<dots> \<subseteq> fst ` set (fst (fold choice_step fields (choice_step p acc)))"
    by (rule Cons.IH)
  finally show ?case by simp
qed

lemma key_of_discriminated_field:
  assumes "(m, g) \<in> set fields" and "field_when g = Some k" and "k \<noteq> []"
  shows "k \<in> fst ` set (fst (collect_choices fields))"
proof -
  from assms(1) obtain xs ys where f: "fields = xs @ (m, g) # ys"
    by (auto simp: in_set_conv_decomp)
  let ?acc = "fold choice_step xs ([], {})"
  have "k \<in> fst ` set (fst (choice_step (m, g) ?acc))"
    using keys_choice_step [OF assms(2,3), of m ?acc] by simp
  also have "\<dots> \<subseteq> fst ` set (fst (fold choice_step ys (choice_step (m, g) ?acc)))"
    by (rule keys_fold_mono)
  finally show ?thesis by (simp add: collect_choices_def f)
qed

lemma group_members_have_when:
  "x \<in> set (concat (map snd (fst (fold choice_step fields acc))))
   \<Longrightarrow> has_when (snd x) \<or> x \<in> set (concat (map snd (fst acc)))"
proof (induction fields arbitrary: acc)
  case Nil
  then show ?case by simp
next
  case (Cons p fields)
  obtain n f where p: "p = (n, f)" by (cases p)
  obtain ce cs where acc: "acc = (ce, cs)" by (cases acc)
  from Cons.prems have "has_when (snd x)
      \<or> x \<in> set (concat (map snd (fst (choice_step p acc))))"
    using Cons.IH [of "choice_step p acc"] by simp
  moreover have "x \<in> set (concat (map snd (fst (choice_step p acc))))
      \<Longrightarrow> has_when (snd x) \<or> x \<in> set (concat (map snd (fst acc)))"
  proof (cases "field_when f")
    case None
    then show "x \<in> set (concat (map snd (fst (choice_step p acc))))
      \<Longrightarrow> has_when (snd x) \<or> x \<in> set (concat (map snd (fst acc)))"
      by (simp add: p acc)
  next
    case (Some w)
    assume x: "x \<in> set (concat (map snd (fst (choice_step p acc))))"
    show "has_when (snd x) \<or> x \<in> set (concat (map snd (fst acc)))"
    proof (cases "w = []")
      case True
      with x Some show ?thesis by (simp add: p acc)
    next
      case False
      with Some have "choice_step p acc = (setdefault_append w p ce, insert n cs)"
        by (simp add: p acc)
      with x have "x \<in> set (concat (map snd (setdefault_append w p ce)))"
        by (simp only: fst_conv)
      then have "x \<in> insert p (set (concat (map snd ce)))"
        by (simp only: setdefault_append_members)
      moreover have "has_when (snd p)" using Some False by (simp add: p has_when_def)
      ultimately show ?thesis by (auto simp: acc)
    qed
  qed
  ultimately show ?case by blast
qed

lemma for_each_skip:
  assumes "\<And>s. body s x = Inr s"
  shows "for_each body (xs @ x # ys) s = for_each body (xs @ ys) s"
  by (simp add: for_each_append assms split: sum.splits)

lemma classifier_tags:
  assumes "type_annotation_to_string a = Inr s"
  shows "s \<in> {''list'', ''object'', ''bool'', ''date'', ''float'', ''integer'', ''string'',
               ''time'', ''url''}"
  using assms
  by (auto simp: type_annotation_to_string_def split: sum.splits bool.splits if_splits)

lemma field_tag:
  assumes "create_xml_element_for_field a n = Inr e"
  shows "type_annotation_to_string a = Inr (tag e)"
proof -
  from assms obtain s where s: "type_annotation_to_string a = Inr s"
    by (subst (asm) create_xml_element_for_field.simps) (auto split: sum.splits)
  have "tag e = s"
    using assms s
    by (subst (asm) create_xml_element_for_field.simps)
       (auto simp: Let_def split: sum.splits bool.splits if_splits list.splits
          dest: base_model_frame)
  with s show ?thesis by simp
qed

lemma field_tag_not_choice:
  "create_xml_element_for_field a n = Inr e \<Longrightarrow> tag e \<noteq> ''choice''"
  using classifier_tags [OF field_tag] by fastforce

lemma collect_results_all:
  assumes "collect_results f xs = Inr ys" and "\<And>x y. f x = Inr y \<Longrightarrow> P y"
  shows "list_all P ys"
  using assms(1)
proof (induction xs arbitrary: ys)
  case Nil
  then show ?case by simp
next
  case (Cons x xs)
  then show ?case by (auto split: sum.splits intro: assms(2))
qed

section \<open>The type normaliser\<close>

text \<open>
  Claim C3. The normaliser is idempotent: for every annotation that Python can build
  (a plain type, a union, or a \<^verbatim>\<open>ModelField\<close> wrapping either), normalising the result
  of \<^verbatim>\<open>prepare_type_annotation\<close> again gives the same result; when the first call
  raises, so does the composition.
\<close>

theorem prepare_type_annotation_idempotent:
  assumes "union_is_flat (unwrap_field a)"
  shows "(case prepare_type_annotation a of
            Inl err \<Rightarrow> Inl err
          | Inr t \<Rightarrow> prepare_type_annotation (Type t)) = prepare_type_annotation a"
proof (cases "prepare_type_annotation a")
  case (Inl err)
  then show ?thesis by simp
next
  case (Inr t)
  from assms Inr have "get_origin t \<noteq> Some OriginUnion" by (rule prepare_result_not_union)
  then show ?thesis using Inr by (simp add: prepare_not_union)
qed

theorem prepare_type_annotation_idempotent_witness:
  "union_is_flat (unwrap_field (Field (ModelField (TUnion [NoneType, ListOf [TUnion [TInt, NoneType]]]) None None None)))
   \<and> prepare_type_annotation (Field (ModelField (TUnion [NoneType, ListOf [TUnion [TInt, NoneType]]]) None None None))
       = Inr (ListOf [TUnion [TInt, NoneType]])
   \<and> prepare_type_annotation (Type (ListOf [TUnion [TInt, NoneType]])) = Inr (ListOf [TUnion [TInt, NoneType]])"
  using prepare_type_annotation_idempotent
    [of "Field (ModelField (TUnion [NoneType, ListOf [TUnion [TInt, NoneType]]]) None None None)"]
  by (simp add: unwrap_field_def prepare_type_annotation_def)

text \<open>
  The hypothesis excludes values of \<open>ty\<close> only: on a union nested in a union, which
  Python flattens when the annotation is written, the normaliser would strip one level
  per call.
\<close>

lemma nested_union_strips_one_level:
  "prepare_type_annotation (Type (TUnion [TUnion [TInt, NoneType], NoneType]))
     = Inr (TUnion [TInt, NoneType])
   \<and> prepare_type_annotation (Type (TUnion [TInt, NoneType])) = Inr TInt"
  by (simp add: unwrap_field_def prepare_type_annotation_def)




section \<open>The classifier\<close>

text \<open>
  Claim C5. When the normalised type is none of the known shapes, the classifier raises
  \<^verbatim>\<open>ValueError\<close> with a message that prints that type; it returns no tag.
\<close>

theorem unsupported_type_raises:
  assumes "union_is_flat (unwrap_field a)"
    and "prepare_type_annotation a = Inr t"
    and "\<not> known_shape t"
  shows "type_annotation_to_string a = Inl (ValueError t)"
proof -
  have nu: "get_origin t \<noteq> Some OriginUnion"
    using assms(1,2) by (rule prepare_result_not_union)
  then have p: "prepare_type_annotation (Type t) = Inr t" by (rule prepare_not_union)
  have l: "is_list (Type t) = Inr False"
    using assms(3) p nu by (cases t) (simp_all add: is_list_def)
  have d: "is_dict (Type t) = Inr False"
    using assms(3) p nu by (cases t) (simp_all add: is_dict_def)
  show ?thesis
    using assms(2,3) l d by (cases t) (simp_all add: type_annotation_to_string_def)
qed

theorem unsupported_type_raises_witness:
  "type_annotation_to_string (Field (ModelField (TUnion [OtherType ''bytes'' [], NoneType]) None None None))
     = Inl (ValueError (OtherType ''bytes'' []))"
  by (rule unsupported_type_raises)
    (simp_all add: unwrap_field_def prepare_type_annotation_def)

section \<open>The validator encoder\<close>

text \<open>
  Claim C8. For a field with the two validators \<^verbatim>\<open>length\<close> (action
  \<^verbatim>\<open>reask\<close>) and \<^verbatim>\<open>valid-choices\<close> (no action), the encoder sets
  \<^verbatim>\<open>format\<close> to the two serialised forms joined by \<^verbatim>\<open>"; "\<close>,
  \<^verbatim>\<open>on-fail-length\<close> to \<^verbatim>\<open>reask\<close> and \<^verbatim>\<open>on-fail-valid-choices\<close> to
  \<^verbatim>\<open>noop\<close>, and touches nothing else: on a new element these are the only
  attributes.
\<close>

theorem validators_length_and_valid_choices:
  "add_validators_to_xml_element
     (Field (ModelField t
        (Some [Validator len_repr ''length'' (Some ''reask''),
               Validator choices_repr ''valid-choices'' None]) d w))
     (Element tg ats cs)
   = Element tg
       (assign ''on-fail-valid-choices'' ''noop''
         (assign ''on-fail-length'' ''reask''
           (assign ''format'' (len_repr @ ''; '' @ choices_repr) ats))) cs
   \<and> attrib (add_validators_to_xml_element
       (Field (ModelField t
          (Some [Validator len_repr ''length'' (Some ''reask''),
                 Validator choices_repr ''valid-choices'' None]) d w))
       (E tg))
     = [(''format'', len_repr @ ''; '' @ choices_repr),
        (''on-fail-length'', ''reask''),
        (''on-fail-valid-choices'', ''noop'')]"
  by (simp add: add_validators_to_xml_element_def set_attr_def E_def)

theorem validators_length_and_valid_choices_witness:
  "add_validators_to_xml_element
     (Field (ModelField TStr
        (Some [Validator ''length: 1 10'' ''length'' (Some ''reask''),
               Validator ''valid-choices: a b'' ''valid-choices'' None]) None None))
     (Element ''string'' [(''name'', ''code'')] [])
   = Element ''string''
       [(''name'', ''code''), (''format'', ''length: 1 10; valid-choices: a b''),
        (''on-fail-length'', ''reask''), (''on-fail-valid-choices'', ''noop'')] []"
  using validators_length_and_valid_choices
    [of TStr "''length: 1 10''" "''valid-choices: a b''" None None "''string''"
      "[(''name'', ''code'')]" "[]"]
  by simp

section \<open>Building a field\<close>

text \<open>
  Claim C1. The claim is that a list field whose type declares no element type gives a
  list element without children. The source raises \<^verbatim>\<open>IndexError\<close> instead, for
  the class \<^verbatim>\<open>list\<close> and for the bare alias \<^verbatim>\<open>typing.List\<close>, also under
  \<^verbatim>\<open>Optional\<close>.
\<close>

theorem bare_list_field_raises:
  "create_xml_element_for_field (Field (ModelField PyList None None None)) (Some ''tags'')
     = Inl (IndexError ''tuple index out of range'')
   \<and> create_xml_element_for_field (Field (ModelField (TUnion [ListOf [], NoneType]) None None None))
       (Some ''tags'')
     = Inl (IndexError ''tuple index out of range'')"
  by (simp add: bare_list_raises [where t = PyList] bare_list_raises [where t = "ListOf []"]
      prepare_type_annotation_def unwrap_field_def)

text \<open>
  Claim C6. For a field whose normalised type is a dictionary type with two arguments:
  when the key type is not \<^verbatim>\<open>str\<close> the builder fails its assertion; when it is,
  the builder builds the element of the value type, without a name, and the result is
  the object element of the field with that element as its only child (or the error of
  building it).
\<close>

theorem dict_field_key_type:
  assumes "prepare_type_annotation field = Inr (DictOf [key_type, val_type])"
  shows "create_xml_element_for_field field field_name =
     (if key_type = TStr then
        (case create_xml_element_for_field (Type val_type) None of
           Inl err \<Rightarrow> Inl err
         | Inr inner_element \<Rightarrow>
             Inr (Element ''object'' (attrib (new_field_element field ''object'' field_name))
                    [inner_element]))
      else Inl (AssertionError ''Only string keys are supported for dicts''))"
  apply (subst create_xml_element_for_field.simps)
  apply (simp add: classify_dict [OF assms] assms append_el_def
      split: sum.splits)
  done

theorem dict_field_key_type_witness:
  "create_xml_element_for_field (Field (ModelField (DictOf [TInt, TStr]) None None None))
       (Some ''m'')
     = Inl (AssertionError ''Only string keys are supported for dicts'')
   \<and> create_xml_element_for_field
       (Field (ModelField (TUnion [DictOf [TStr, TInt], NoneType]) None (Some ''d'') None))
       (Some ''m'')
     = Inr (Element ''object'' [(''name'', ''m''), (''description'', ''d'')]
              [Element ''integer'' [] []])"
proof -
  have inner: "create_xml_element_for_field (Type TInt) None = Inr (Element ''integer'' [] [])"
    by code_simp
  have p1: "prepare_type_annotation (Field (ModelField (DictOf [TInt, TStr]) None None None))
              = Inr (DictOf [TInt, TStr])"
    by (simp add: prepare_type_annotation_def unwrap_field_def)
  have p2: "prepare_type_annotation
              (Field (ModelField (TUnion [DictOf [TStr, TInt], NoneType]) None (Some ''d'') None))
              = Inr (DictOf [TStr, TInt])"
    by (simp add: prepare_type_annotation_def unwrap_field_def)
  show ?thesis
    using dict_field_key_type [OF p1, of "Some ''m''"] dict_field_key_type [OF p2, of "Some ''m''"]
      inner
    by (simp add: new_field_element_def add_validators_to_xml_element_def E_def set_attr_def)
qed

text \<open>
  Claim C9. For a field whose normalised type is a model, the builder passes the element
  it has prepared (tag \<^verbatim>\<open>object\<close>, with the name, validator and description
  attributes) to \<^verbatim>\<open>create_xml_element_for_base_model\<close> as the accumulator, and
  the element that comes back has the same tag and the same attributes.
\<close>

theorem nested_record_keeps_attributes:
  assumes "prepare_type_annotation field = Inr (BaseModel fields)"
  shows "create_xml_element_for_field field field_name =
           create_xml_element_for_base_model fields
             (Some (new_field_element field ''object'' field_name))
       \<and> (\<forall>e. create_xml_element_for_field field field_name = Inr e \<longrightarrow>
             tag e = ''object''
           \<and> attrib e = attrib (new_field_element field ''object'' field_name))"
proof -
  have eq: "create_xml_element_for_field field field_name =
           create_xml_element_for_base_model fields
             (Some (new_field_element field ''object'' field_name))"
    by (subst create_xml_element_for_field.simps)
      (simp add: classify_model [OF assms] assms)
  then show ?thesis
    using base_model_frame [of fields "new_field_element field ''object'' field_name"]
    by simp
qed

theorem nested_record_keeps_attributes_witness:
  "prepare_type_annotation
     (Field (ModelField (BaseModel [(''age'', ModelField TInt None None None)])
        (Some [PromptStr ''adult'']) (Some ''a person'') None))
     = Inr (BaseModel [(''age'', ModelField TInt None None None)])
   \<and> create_xml_element_for_field
       (Field (ModelField (BaseModel [(''age'', ModelField TInt None None None)])
          (Some [PromptStr ''adult'']) (Some ''a person'') None))
       (Some ''person'')
     = Inr (Element ''object''
              [(''name'', ''person''), (''format'', ''adult''), (''description'', ''a person'')]
              [Element ''integer'' [(''name'', ''age'')] []])
   \<and> attrib (new_field_element
       (Field (ModelField (BaseModel [(''age'', ModelField TInt None None None)])
          (Some [PromptStr ''adult'']) (Some ''a person'') None))
       ''object'' (Some ''person''))
     = [(''name'', ''person''), (''format'', ''adult''), (''description'', ''a person'')]"
proof -
  let ?f = "Field (ModelField (BaseModel [(''age'', ModelField TInt None None None)])
          (Some [PromptStr ''adult'']) (Some ''a person'') None)"
  have p: "prepare_type_annotation ?f = Inr (BaseModel [(''age'', ModelField TInt None None None)])"
    by (simp add: prepare_type_annotation_def unwrap_field_def)
  have r: "create_xml_element_for_field ?f (Some ''person'')
     = Inr (Element ''object''
              [(''name'', ''person''), (''format'', ''adult''), (''description'', ''a person'')]
              [Element ''integer'' [(''name'', ''age'')] []])"
    by code_simp
  show ?thesis
    using nested_record_keeps_attributes [OF p, of "Some ''person''"] p r
    by simp
qed

section \<open>Building an object\<close>

text \<open>
  Claim C7. For a model none of whose fields is discriminated, the children that
  \<^verbatim>\<open>create_xml_element_for_base_model\<close> adds are the elements of the fields, each
  built under its name, in the order of declaration (and the first field that fails
  gives the error); for the fields \<^verbatim>\<open>[a, b, c]\<close> the children are those of
  \<^verbatim>\<open>a\<close>, \<^verbatim>\<open>b\<close>, \<^verbatim>\<open>c\<close> in that order. The result is a function of the
  model and the accumulator alone: the builder reads no other state, and the dictionaries
  it iterates keep insertion order, so two calls on one model give equal trees.
\<close>

theorem children_in_declaration_order:
  assumes "list_all (\<lambda>(n, f). \<not> has_when f) fields"
  shows "create_xml_element_for_base_model fields element =
     (case collect_results (\<lambda>(n, f). create_xml_element_for_field (Field f) (Some n)) fields of
        Inl err \<Rightarrow> Inl err
      | Inr cs \<Rightarrow>
          Inr (Element (tag (case element of None \<Rightarrow> E ''object'' | Some e \<Rightarrow> e))
                 (attrib (case element of None \<Rightarrow> E ''object'' | Some e \<Rightarrow> e))
                 (children (case element of None \<Rightarrow> E ''object'' | Some e \<Rightarrow> e) @ cs)))"
proof -
  have cc: "collect_choices fields = ([], {})"
    using assms by (simp add: collect_choices_def fold_choice_step_no_when)
  show ?thesis
    apply (subst create_xml_element_for_base_model.simps)
    apply (simp add: cc Let_def direct_pass [where skip = "\<lambda>n. False", simplified]
        split: sum.splits)
    done
qed

theorem children_in_declaration_order_witness:
  "list_all (\<lambda>(n, f). \<not> has_when f)
     [(''a'', ModelField TStr None None None),
      (''b'', ModelField (ListOf [TInt]) None None None),
      (''c'', ModelField TBool None (Some ''flag'') None)]
   \<and> create_xml_element_for_base_model
       [(''a'', ModelField TStr None None None),
        (''b'', ModelField (ListOf [TInt]) None None None),
        (''c'', ModelField TBool None (Some ''flag'') None)] None
     = Inr (Element ''object'' []
         [Element ''string'' [(''name'', ''a'')] [],
          Element ''list'' [(''name'', ''b'')] [Element ''integer'' [] []],
          Element ''bool'' [(''name'', ''c''), (''description'', ''flag'')] []])"
proof -
  have h: "list_all (\<lambda>(n, f). \<not> has_when f)
     [(''a'', ModelField TStr None None None),
      (''b'', ModelField (ListOf [TInt]) None None None),
      (''c'', ModelField TBool None (Some ''flag'') None)]"
    by (simp add: has_when_def)
  have a: "create_xml_element_for_field (Field (ModelField TStr None None None)) (Some ''a'')
             = Inr (Element ''string'' [(''name'', ''a'')] [])"
    by code_simp
  have b: "create_xml_element_for_field (Field (ModelField (ListOf [TInt]) None None None))
             (Some ''b'')
             = Inr (Element ''list'' [(''name'', ''b'')] [Element ''integer'' [] []])"
    by code_simp
  have c: "create_xml_element_for_field (Field (ModelField TBool None (Some ''flag'') None))
             (Some ''c'')
             = Inr (Element ''bool'' [(''name'', ''c''), (''description'', ''flag'')] [])"
    by code_simp
  show ?thesis
    using children_in_declaration_order [OF h, of None] h a b c
    by (simp add: E_def)
qed

text \<open>
  Claim C10. A field that is not discriminated and whose name is the discriminator key
  of another field gives no element: the tree is the one of the model without that
  field (so even a type the classifier rejects raises nothing there), and the field is
  in no choice group.
\<close>

theorem field_named_like_a_key_is_dropped:
  assumes "\<not> has_when f"
    and "(m, g) \<in> set (pre @ post)" and "field_when g = Some n" and "n \<noteq> []"
  shows "create_xml_element_for_base_model (pre @ (n, f) # post) element =
           create_xml_element_for_base_model (pre @ post) element
       \<and> (n, f) \<notin> set (concat (map snd (fst (collect_choices (pre @ (n, f) # post)))))"
proof -
  have cc: "collect_choices (pre @ (n, f) # post) = collect_choices (pre @ post)"
    using assms(1) by (simp add: collect_choices_def choice_step_no_when del: choice_step.simps)
  have key: "n \<in> fst ` set (fst (collect_choices (pre @ post)))"
    using assms(2-4) by (rule key_of_discriminated_field)
  obtain choice_elements case_elements
    where c: "collect_choices (pre @ post) = (choice_elements, case_elements)"
    by (cases "collect_choices (pre @ post)")
  have n: "n \<in> set (map fst choice_elements)" using key c by simp
  have eq: "create_xml_element_for_base_model (pre @ (n, f) # post) element =
           create_xml_element_for_base_model (pre @ post) element"
    apply (subst create_xml_element_for_base_model.simps)
    apply (subst create_xml_element_for_base_model.simps)
    apply (simp only: cc c Let_def prod.case)
    apply (subst for_each_skip)
    using n apply simp
    apply (rule refl)
    done
  have "(n, f) \<notin> set (concat (map snd (fst (collect_choices (pre @ (n, f) # post)))))"
    using group_members_have_when [of "(n, f)" "pre @ (n, f) # post" "([], {})"] assms(1)
    by (auto simp: collect_choices_def)
  with eq show ?thesis by simp
qed

theorem field_named_like_a_key_is_dropped_witness:
  "create_xml_element_for_base_model
       [(''shape'', ModelField (OtherType ''bytes'' []) None None None),
        (''x'', ModelField TStr None None (Some ''shape''))] None
     = Inr (Element ''object'' []
         [Element ''choice'' [(''name'', ''shape''), (''on-fail-choice'', ''exception'')]
            [Element ''case'' [(''name'', ''x'')] [Element ''string'' [(''name'', ''x'')] []]]])
   \<and> create_xml_element_for_field (Field (ModelField (OtherType ''bytes'' []) None None None))
       (Some ''shape'')
     = Inl (ValueError (OtherType ''bytes'' []))"
proof -
  have r: "create_xml_element_for_base_model
       [(''x'', ModelField TStr None None (Some ''shape''))] None
     = Inr (Element ''object'' []
         [Element ''choice'' [(''name'', ''shape''), (''on-fail-choice'', ''exception'')]
            [Element ''case'' [(''name'', ''x'')] [Element ''string'' [(''name'', ''x'')] []]]])"
    by code_simp
  have e: "create_xml_element_for_field (Field (ModelField (OtherType ''bytes'' []) None None None))
       (Some ''shape'')
     = Inl (ValueError (OtherType ''bytes'' []))"
    by code_simp
  have "create_xml_element_for_base_model
       ([] @ (''shape'', ModelField (OtherType ''bytes'' []) None None None)
          # [(''x'', ModelField TStr None None (Some ''shape''))]) None
     = create_xml_element_for_base_model
       ([] @ [(''x'', ModelField TStr None None (Some ''shape''))]) None"
    using field_named_like_a_key_is_dropped
      [of "ModelField (OtherType ''bytes'' []) None None None" "''x''"
        "ModelField TStr None None (Some ''shape'')" "[]"
        "[(''x'', ModelField TStr None None (Some ''shape''))]" "''shape''" None]
    by (simp add: has_when_def)
  with r e show ?thesis by simp
qed

text \<open>
  Claim C2, as stated, has each case element hold the field's element built without a
  name attribute. The source builds it with the field's name, so the child of a case
  element carries a \<^verbatim>\<open>name\<close> attribute too:
\<close>

theorem case_child_carries_name:
  "create_xml_element_for_field (Field (ModelField TStr None None (Some ''shape''))) None
     = Inr (Element ''string'' [] [])
   \<and> create_xml_element_for_field (Field (ModelField TInt None None (Some ''shape''))) None
     = Inr (Element ''integer'' [] [])
   \<and> create_xml_element_for_base_model
       [(''x'', ModelField TStr None None (Some ''shape'')),
        (''y'', ModelField TInt None None (Some ''shape''))] None
     = Inr (Element ''object'' []
         [Element ''choice'' [(''name'', ''shape''), (''on-fail-choice'', ''exception'')]
            [Element ''case'' [(''name'', ''x'')] [Element ''string'' [(''name'', ''x'')] []],
             Element ''case'' [(''name'', ''y'')] [Element ''integer'' [(''name'', ''y'')] []]]])"
  by code_simp

text \<open>
  Claim C2, amended. For a model in which the fields \<open>x\<close> and \<open>y\<close>, declared in
  this order, carry the discriminator key \<open>k\<close> and no other field is discriminated,
  the tree has exactly one choice element, the last child, with \<^verbatim>\<open>name\<close> \<open>k\<close> and
  \<^verbatim>\<open>on-fail-choice\<close> \<^verbatim>\<open>exception\<close>; its children are the case elements named
  \<open>x\<close> and \<open>y\<close>, in this order, each with one child, the element of the field built
  with the field's name; the children before it are the elements of the other fields
  whose name is none of \<open>k\<close>, \<open>x\<close>, \<open>y\<close>, none of them a choice element.
\<close>

theorem discriminated_pair:
  assumes "list_all (\<lambda>(n, f). \<not> has_when f) (pre @ mid @ post)"
    and "field_when fx = Some k" and "field_when fy = Some k" and "k \<noteq> []"
  shows "create_xml_element_for_base_model (pre @ (x, fx) # mid @ (y, fy) # post) None =
     (case collect_results (\<lambda>(n, f). create_xml_element_for_field (Field f) (Some n))
             (filter (\<lambda>(n, f). n \<notin> {k, x, y}) (pre @ mid @ post)) of
        Inl err \<Rightarrow> Inl err
      | Inr ds \<Rightarrow>
         (case create_xml_element_for_field (Field fx) (Some x) of
            Inl err \<Rightarrow> Inl err
          | Inr ex \<Rightarrow>
             (case create_xml_element_for_field (Field fy) (Some y) of
                Inl err \<Rightarrow> Inl err
              | Inr ey \<Rightarrow>
                 Inr (Element ''object'' []
                   (ds @ [Element ''choice''
                            [(''name'', k), (''on-fail-choice'', ''exception'')]
                            [Element ''case'' [(''name'', x)] [ex],
                             Element ''case'' [(''name'', y)] [ey]]])))))
     \<and> (\<forall>ds. collect_results (\<lambda>(n, f). create_xml_element_for_field (Field f) (Some n))
             (filter (\<lambda>(n, f). n \<notin> {k, x, y}) (pre @ mid @ post)) = Inr ds
            \<longrightarrow> list_all (\<lambda>d. tag d \<noteq> ''choice'') ds)"
proof -
  have pre: "list_all (\<lambda>(n, f). \<not> has_when f) pre"
    and mid: "list_all (\<lambda>(n, f). \<not> has_when f) mid"
    and post: "list_all (\<lambda>(n, f). \<not> has_when f) post"
    using assms(1) by simp_all
  have cc: "collect_choices (pre @ (x, fx) # mid @ (y, fy) # post)
              = ([(k, [(x, fx), (y, fy)])], {x, y})"
    using assms(2-4)
    by (auto simp: collect_choices_def fold_choice_step_no_when [OF pre]
        fold_choice_step_no_when [OF mid] fold_choice_step_no_when [OF post])
  have flt: "filter (\<lambda>(n, fld). \<not> (n \<in> set (map fst [(k, [(x, fx), (y, fy)])]) \<or> n \<in> {x, y}))
               (pre @ (x, fx) # mid @ (y, fy) # post)
             = filter (\<lambda>(n, f). n \<notin> {k, x, y}) (pre @ mid @ post)"
    by (auto intro: filter_cong)
  have main: "create_xml_element_for_base_model (pre @ (x, fx) # mid @ (y, fy) # post) None =
     (case collect_results (\<lambda>(n, f). create_xml_element_for_field (Field f) (Some n))
             (filter (\<lambda>(n, f). n \<notin> {k, x, y}) (pre @ mid @ post)) of
        Inl err \<Rightarrow> Inl err
      | Inr ds \<Rightarrow>
         (case create_xml_element_for_field (Field fx) (Some x) of
            Inl err \<Rightarrow> Inl err
          | Inr ex \<Rightarrow>
             (case create_xml_element_for_field (Field fy) (Some y) of
                Inl err \<Rightarrow> Inl err
              | Inr ey \<Rightarrow>
                 Inr (Element ''object'' []
                   (ds @ [Element ''choice''
                            [(''name'', k), (''on-fail-choice'', ''exception'')]
                            [Element ''case'' [(''name'', x)] [ex],
                             Element ''case'' [(''name'', y)] [ey]]])))))"
    apply (subst create_xml_element_for_base_model.simps)
    apply (simp only: cc Let_def prod.case option.case)
    apply (subst direct_pass
        [where skip = "\<lambda>n. n \<in> set (map fst [(k, [(x, fx), (y, fy)])]) \<or> n \<in> {x, y}"])
    apply (simp only: flt)
    apply (simp add: E_def set_attr_def append_el_def split: sum.splits)
    done
  have "\<forall>ds. collect_results (\<lambda>(n, f). create_xml_element_for_field (Field f) (Some n))
             (filter (\<lambda>(n, f). n \<notin> {k, x, y}) (pre @ mid @ post)) = Inr ds
            \<longrightarrow> list_all (\<lambda>d. tag d \<noteq> ''choice'') ds"
    by (auto elim!: collect_results_all dest: field_tag_not_choice)
  with main show ?thesis by simp
qed

theorem discriminated_pair_witness:
  "list_all (\<lambda>(n, f). \<not> has_when f)
     ([(''shape'', ModelField TStr None None None)] @ [(''z'', ModelField TFloat None None None)] @ [])
   \<and> create_xml_element_for_base_model
       [(''shape'', ModelField TStr None None None),
        (''x'', ModelField TStr None None (Some ''shape'')),
        (''z'', ModelField TFloat None None None),
        (''y'', ModelField TInt None None (Some ''shape''))] None
     = Inr (Element ''object'' []
         [Element ''float'' [(''name'', ''z'')] [],
          Element ''choice'' [(''name'', ''shape''), (''on-fail-choice'', ''exception'')]
            [Element ''case'' [(''name'', ''x'')] [Element ''string'' [(''name'', ''x'')] []],
             Element ''case'' [(''name'', ''y'')] [Element ''integer'' [(''name'', ''y'')] []]]])"
proof -
  have h: "list_all (\<lambda>(n, f). \<not> has_when f)
     ([(''shape'', ModelField TStr None None None)] @ [(''z'', ModelField TFloat None None None)] @ [])"
    by (simp add: has_when_def)
  have x: "create_xml_element_for_field (Field (ModelField TStr None None (Some ''shape'')))
             (Some ''x'') = Inr (Element ''string'' [(''name'', ''x'')] [])"
    by code_simp
  have y: "create_xml_element_for_field (Field (ModelField TInt None None (Some ''shape'')))
             (Some ''y'') = Inr (Element ''integer'' [(''name'', ''y'')] [])"
    by code_simp
  have z: "create_xml_element_for_field (Field (ModelField TFloat None None None))
             (Some ''z'') = Inr (Element ''float'' [(''name'', ''z'')] [])"
    by code_simp
  show ?thesis
    using discriminated_pair [OF h, of "ModelField TStr None None (Some ''shape'')" "''shape''"
        "ModelField TInt None None (Some ''shape'')" "''x''" "''y''"] h x y z
    by simp
qed

end
